theory Spec2Isabelle
  imports Main
begin

section \<open>Characters and strings\<close>

text \<open>
  A Python \<open>str\<close> is modelled as a \<open>string\<close>, the list of its characters; a
  character of the model is a code point below 256. The character tests below are
  Python's on these code points: \<open>[0-9]\<close> and \<open>\d\<close> are the same ten digits;
  \<open>\s\<close> and \<open>str.strip\<close> take the codes 9 to 13, 28 to 32, 133 and 160; \<open>\w\<close> and
  \<open>str.isalpha\<close> also take the letters and numbers among the codes from 170 to 255.
\<close>

definition is_digit :: "char \<Rightarrow> bool" where
  "is_digit c = (48 \<le> (of_char c :: nat) \<and> (of_char c :: nat) \<le> 57)"

text \<open>The classes \<open>[A-Z]\<close>, \<open>[a-z]\<close>, \<open>[a-zA-Z]\<close> and \<open>[a-zA-Z0-9]\<close>.\<close>

definition is_upper :: "char \<Rightarrow> bool" where
  "is_upper c = (65 \<le> (of_char c :: nat) \<and> (of_char c :: nat) \<le> 90)"

definition is_lower :: "char \<Rightarrow> bool" where
  "is_lower c = (97 \<le> (of_char c :: nat) \<and> (of_char c :: nat) \<le> 122)"

definition is_alpha :: "char \<Rightarrow> bool" where
  "is_alpha c = (is_upper c \<or> is_lower c)"

definition is_alnum :: "char \<Rightarrow> bool" where
  "is_alnum c = (is_alpha c \<or> is_digit c)"

text \<open>
  The letters above code 127: the ordinal indicators 170 and 186, the micro sign 181,
  and the accented letters 192 to 255 without the signs 215 and 247.
\<close>

definition is_high_letter :: "char \<Rightarrow> bool" where
  "is_high_letter c =
     ((of_char c :: nat) = 170 \<or> (of_char c :: nat) = 181 \<or> (of_char c :: nat) = 186
      \<or> (192 \<le> (of_char c :: nat) \<and> (of_char c :: nat) \<le> 214)
      \<or> (216 \<le> (of_char c :: nat) \<and> (of_char c :: nat) \<le> 246)
      \<or> 248 \<le> (of_char c :: nat))"

text \<open>\<open>str.isalpha\<close> of one character.\<close>

definition isalpha :: "char \<Rightarrow> bool" where
  "isalpha c = (is_alpha c \<or> is_high_letter c)"

text \<open>
  \<open>\w\<close>: the underscore and every alphanumeric character, which above code 127 adds
  to the letters the superscript digits 178, 179 and 185 and the fractions 188 to 190.
\<close>

definition is_word :: "char \<Rightarrow> bool" where
  "is_word c =
     (is_alnum c \<or> c = CHR ''_'' \<or> is_high_letter c
      \<or> (of_char c :: nat) = 178 \<or> (of_char c :: nat) = 179 \<or> (of_char c :: nat) = 185
      \<or> (188 \<le> (of_char c :: nat) \<and> (of_char c :: nat) \<le> 190))"

definition is_space :: "char \<Rightarrow> bool" where
  "is_space c = ((9 \<le> (of_char c :: nat) \<and> (of_char c :: nat) \<le> 13)
                 \<or> (28 \<le> (of_char c :: nat) \<and> (of_char c :: nat) \<le> 32)
                 \<or> (of_char c :: nat) = 133 \<or> (of_char c :: nat) = 160)"

text \<open>
  \<open>str.upper\<close>. The small letters \<open>a\<close> to \<open>z\<close> and 224 to 254 (without the division
  sign 247) have their capital 32 codes below; the sharp s, code 223, becomes the two
  letters \<open>SS\<close>. The capitals of the micro sign 181 and of the letter 255 lie beyond
  code 255: in the model the two stand for themselves, which no test of this program
  can tell from their capitals, since an upper-cased string is only ever compared with
  ASCII characters.
\<close>

definition to_upper :: "char \<Rightarrow> char" where
  "to_upper c =
     (if is_lower c
         \<or> (224 \<le> (of_char c :: nat) \<and> (of_char c :: nat) \<le> 254 \<and> (of_char c :: nat) \<noteq> 247)
      then char_of ((of_char c :: nat) - 32) else c)"

definition upper_char :: "char \<Rightarrow> string" where
  "upper_char c = (if c = CHR 0xDF then ''SS'' else [to_upper c])"

definition upper :: "string \<Rightarrow> string" where
  "upper s = concat (map upper_char s)"

text \<open>
  \<open>str.lower\<close>: the capitals \<open>A\<close> to \<open>Z\<close> and 192 to 222 (without the multiplication
  sign 215) have their small letter 32 codes above.
\<close>

definition to_lower :: "char \<Rightarrow> char" where
  "to_lower c =
     (if is_upper c
         \<or> (192 \<le> (of_char c :: nat) \<and> (of_char c :: nat) \<le> 222 \<and> (of_char c :: nat) \<noteq> 215)
      then char_of ((of_char c :: nat) + 32) else c)"

definition lower :: "string \<Rightarrow> string" where
  "lower s = map to_lower s"

definition strip :: "string \<Rightarrow> string" where
  "strip s = rev (dropWhile is_space (rev (dropWhile is_space s)))"

text \<open>The strings of ASCII characters.\<close>

definition ascii :: "string \<Rightarrow> bool" where
  "ascii s = list_all (\<lambda>c. (of_char c :: nat) < 128) s"

text \<open>\<open>re.sub(r"\D", "", v)\<close>: the digits of \<open>v\<close>, in order.\<close>

definition digits_only :: "string \<Rightarrow> string" where
  "digits_only v = filter is_digit v"

definition count_char :: "char \<Rightarrow> string \<Rightarrow> nat" where
  "count_char c s = length (filter (\<lambda>d. d = c) s)"

text \<open>\<open>sub in s\<close> for strings.\<close>

fun contains :: "string \<Rightarrow> string \<Rightarrow> bool" where
  "contains sub [] = (sub = [])"
| "contains sub (x # xs) = (take (length sub) (x # xs) = sub \<or> contains sub xs)"

text \<open>\<open>str(n)\<close> for a non-negative integer.\<close>

fun str_nat :: "nat \<Rightarrow> string" where
  "str_nat n =
     (if n < 10 then [char_of (48 + n)]
      else str_nat (n div 10) @ [char_of (48 + n mod 10)])"

declare str_nat.simps [simp del]

datatype error = ValueError | IndexError | KeyError | TypeError

section \<open>The pattern registry (config/patterns.py)\<close>

text \<open>
  The regular expressions of the registry are values of \<open>rx\<close>, and \<open>rmatch\<close> gives
  them the meaning of Python's backtracking matcher: the list of all the ways the
  expression can match from a position, in the order in which the matcher tries them.
  A state is the position reached and the groups captured so far. An unbounded
  repetition is bounded by the length of the text, which is exact for a body that
  consumes at least one character, as all the bodies of the registry do.
\<close>

type_synonym mstate = "nat \<times> (nat \<times> string) list"

datatype rx =
    Cls "char \<Rightarrow> bool"
  | Seq rx rx
  | Alt rx rx
  | Rep nat "nat option" bool rx
  | Grp nat rx
  | Bref nat
  | WordB
  | NotBehind "char \<Rightarrow> bool"
  | NotAhead "char \<Rightarrow> bool"

text \<open>
  \<open>iter body greedy lo hi\<close>: between \<open>lo\<close> and \<open>hi\<close> more iterations of \<open>body\<close>. A
  greedy repetition tries one more iteration before it tries to stop, a lazy one
  (\<open>*?\<close>) tries to stop first.
\<close>

fun iter :: "(mstate \<Rightarrow> mstate list) \<Rightarrow> bool \<Rightarrow> nat \<Rightarrow> nat \<Rightarrow> mstate \<Rightarrow> mstate list" where
  "iter body greedy lo 0 s = (if lo = 0 then [s] else [])"
| "iter body greedy lo (Suc hi) s =
     (let more = concat (map (iter body greedy (lo - 1) hi) (body s));
          stop = (if lo = 0 then [s] else [])
      in if greedy then more @ stop else stop @ more)"

definition word_at :: "string \<Rightarrow> nat \<Rightarrow> bool" where
  "word_at t i = (i < length t \<and> is_word (t ! i))"

fun rmatch :: "rx \<Rightarrow> string \<Rightarrow> mstate \<Rightarrow> mstate list" where
  "rmatch (Cls p) t (i, c) = (if i < length t \<and> p (t ! i) then [(Suc i, c)] else [])"
| "rmatch (Seq a b) t s = concat (map (rmatch b t) (rmatch a t s))"
| "rmatch (Alt a b) t s = rmatch a t s @ rmatch b t s"
| "rmatch (Rep lo hi g r) t s =
     iter (rmatch r t) g lo (case hi of None \<Rightarrow> length t | Some h \<Rightarrow> h) s"
| "rmatch (Grp n r) t (i, c) =
     map (\<lambda>(j, c'). (j, (n, take (j - i) (drop i t)) # c')) (rmatch r t (i, c))"
| "rmatch (Bref n) t (i, c) =
     (case map_of c n of
        None \<Rightarrow> []
      | Some g \<Rightarrow> if take (length g) (drop i t) = g then [(i + length g, c)] else [])"
| "rmatch WordB t (i, c) =
     (if (0 < i \<and> word_at t (i - 1)) \<noteq> word_at t i then [(i, c)] else [])"
| "rmatch (NotBehind p) t (i, c) = (if 0 < i \<and> p (t ! (i - 1)) then [] else [(i, c)])"
| "rmatch (NotAhead p) t (i, c) = (if i < length t \<and> p (t ! i) then [] else [(i, c)])"

text \<open>
  \<open>pattern.finditer(text)\<close>: the matches from left to right, each search starting
  where the previous match ended; a match is (\<open>group(0)\<close>, \<open>start()\<close>, \<open>end()\<close>).
\<close>

function finditer :: "rx \<Rightarrow> string \<Rightarrow> nat \<Rightarrow> (string \<times> nat \<times> nat) list" where
  "finditer r t i =
     (if length t < i then []
      else case rmatch r t (i, []) of
             [] \<Rightarrow> finditer r t (Suc i)
           | (j, c) # rest \<Rightarrow>
               (take (j - i) (drop i t), i, j) # finditer r t (if j \<le> i then Suc i else j))"
  by pat_completeness auto
termination
  by (relation "measure (\<lambda>(r, t, i). Suc (length t) - i)") auto

declare finditer.simps [simp del]

text \<open>\<open>(?<!\d)(?:\d{12}|(\d{4})([\-\s])\d{4}\2\d{4})(?![\d-])\<close>\<close>

definition rx_aadhaar :: rx where
  "rx_aadhaar =
     Seq (NotBehind is_digit)
       (Seq (Alt (Rep 12 (Some 12) True (Cls is_digit))
                 (Seq (Grp 1 (Rep 4 (Some 4) True (Cls is_digit)))
                   (Seq (Grp 2 (Cls (\<lambda>c. c = CHR ''-'' \<or> is_space c)))
                     (Seq (Rep 4 (Some 4) True (Cls is_digit))
                       (Seq (Bref 2) (Rep 4 (Some 4) True (Cls is_digit)))))))
            (NotAhead (\<lambda>c. is_digit c \<or> c = CHR ''-'')))"

text \<open>\<open>\b[A-Z]{5}[0-9]{4}[A-Z]{1}\b\<close>\<close>

definition rx_pan :: rx where
  "rx_pan =
     Seq WordB (Seq (Rep 5 (Some 5) True (Cls is_upper))
       (Seq (Rep 4 (Some 4) True (Cls is_digit))
         (Seq (Rep 1 (Some 1) True (Cls is_upper)) WordB)))"

text \<open>\<open>\b(?:\d[ -]*?){13,19}\b\<close>\<close>

definition rx_credit_card :: rx where
  "rx_credit_card =
     Seq WordB
       (Seq (Rep 13 (Some 19) True
               (Seq (Cls is_digit)
                    (Rep 0 None False (Cls (\<lambda>c. c = CHR '' '' \<or> c = CHR ''-'')))))
            WordB)"

text \<open>
  \<open>\b[a-zA-Z0-9.!#$%&'*+/=?^_`{|}~-]+@L(?:\.L)*\b\<close> where \<open>L\<close> is the label
  \<open>[a-zA-Z0-9](?:[a-zA-Z0-9-]{0,61}[a-zA-Z0-9])?\<close>.
\<close>

definition is_email_local :: "char \<Rightarrow> bool" where
  "is_email_local c =
     (is_alnum c \<or> c \<in> set ''.!#$%&*+/=?^_`{|}~-'' \<or> c = CHR 0x27)"

definition rx_label :: rx where
  "rx_label =
     Seq (Cls is_alnum)
       (Rep 0 (Some 1) True
          (Seq (Rep 0 (Some 61) True (Cls (\<lambda>c. is_alnum c \<or> c = CHR ''-'')))
               (Cls is_alnum)))"

definition rx_email :: rx where
  "rx_email =
     Seq WordB
       (Seq (Rep 1 None True (Cls is_email_local))
         (Seq (Cls (\<lambda>c. c = CHR ''@''))
           (Seq rx_label
             (Seq (Rep 0 None True (Seq (Cls (\<lambda>c. c = CHR ''.'')) rx_label)) WordB))))"

text \<open>\<open>\b[6-9]\d{9}\b\<close>\<close>

definition rx_phone :: rx where
  "rx_phone =
     Seq WordB (Seq (Cls (\<lambda>c. c \<in> set ''6789''))
       (Seq (Rep 9 (Some 9) True (Cls is_digit)) WordB))"

text \<open>The dictionary \<open>patterns\<close>, in its insertion order.\<close>

definition patterns :: "(string \<times> rx) list" where
  "patterns =
     [(''aadhaar'', rx_aadhaar), (''pan'', rx_pan), (''credit_card'', rx_credit_card),
      (''email'', rx_email), (''phone'', rx_phone)]"

definition TYPE_MAPPING :: "(string \<times> string) list" where
  "TYPE_MAPPING =
     [(''Credit Card'', ''credit_card''), (''Email'', ''email''), (''Aadhaar'', ''aadhaar''),
      (''PAN'', ''pan''), (''Phone'', ''phone'')]"

text \<open>\<open>TYPE_MAPPING.get(pii_type, pii_type.lower())\<close>\<close>

definition mapped_type_of :: "string \<Rightarrow> string" where
  "mapped_type_of pii_type =
     (case map_of TYPE_MAPPING pii_type of Some k \<Rightarrow> k | None \<Rightarrow> lower pii_type)"

section \<open>The detector (detection/detector.py)\<close>

type_synonym span = "string \<times> string \<times> nat \<times> nat"

text \<open>The first loop of \<open>detect_pii\<close>: every match of every pattern, with its span.\<close>

definition collect_spans :: "string \<Rightarrow> span list" where
  "collect_spans safe_text =
     concat (map (\<lambda>(pii_type, pattern).
                    map (\<lambda>(v, s, e). (pii_type, v, s, e)) (finditer pattern safe_text 0))
                 patterns)"

text \<open>Never classify pure 12-digit sequences as credit cards.\<close>

definition drop_12_digit_cards :: "span list \<Rightarrow> span list" where
  "drop_12_digit_cards span_results =
     filter (\<lambda>(t, v, s, e). \<not> (t = ''credit_card'' \<and> length (digits_only v) = 12))
            span_results"

text \<open>Drop Aadhaar matches that are fully contained within any credit card match span.\<close>

definition drop_contained_aadhaar :: "span list \<Rightarrow> span list" where
  "drop_contained_aadhaar span_results =
     (let credit_spans =
            map (\<lambda>(t, v, s, e). (s, e)) (filter (\<lambda>(t, v, s, e). t = ''credit_card'') span_results)
      in filter (\<lambda>(t, v, s, e).
                   \<not> (t = ''aadhaar'' \<and> list_ex (\<lambda>(cs, ce). cs \<le> s \<and> e \<le> ce) credit_spans))
                span_results)"

text \<open>
  If the same string was detected as both types, keep the credit card. \<open>types_for\<close> is
  the entry of \<open>values_by_type\<close> for a value.
\<close>

definition types_for :: "span list \<Rightarrow> string \<Rightarrow> string set" where
  "types_for filtered_spans v =
     set (map fst (filter (\<lambda>(t, v', s, e). v' = v) filtered_spans))"

definition final_list :: "span list \<Rightarrow> (string \<times> string) list" where
  "final_list filtered_spans =
     map (\<lambda>(t, v, s, e). (t, v))
       (filter (\<lambda>(t, v, s, e).
                  \<not> (''credit_card'' \<in> types_for filtered_spans v
                     \<and> ''aadhaar'' \<in> types_for filtered_spans v \<and> t = ''aadhaar''))
               filtered_spans)"

text \<open>The text is \<open>None\<close> or a string; \<open>text or ""\<close> makes \<open>None\<close> the empty string.\<close>

definition detect_pii :: "string option \<Rightarrow> (string \<times> string) list" where
  "detect_pii text =
     (let safe_text = (case text of None \<Rightarrow> [] | Some t \<Rightarrow> t);
          span_results = collect_spans safe_text
      in if span_results = [] then []
         else final_list (drop_contained_aadhaar (drop_12_digit_cards span_results)))"

section \<open>The validators (validation/validators.py)\<close>

text \<open>
  Modelled from the spec: the module \<open>validation/algorithms.py\<close> with \<open>luhn_check\<close>
  and \<open>verhoeff_check\<close> is not part of the sources at hand. The spec describes both
  as stateless pure functions that return pass or fail; they are taken as parameters,
  and every result below holds whatever the two functions compute.
\<close>

record checks =
  luhn_check :: "string \<Rightarrow> bool"
  verhoeff_check :: "string \<Rightarrow> bool"

text \<open>
  \<open>ord(char.upper())\<close>: the code of the capital. \<open>ord\<close> raises \<open>TypeError\<close> for the
  sharp s, whose upper case has two characters; the capitals of the codes 181 and 255
  have the codes 924 and 376.
\<close>

definition upper_ord :: "char \<Rightarrow> error + nat" where
  "upper_ord char =
     (if char = CHR 0xDF then Inl TypeError
      else if (of_char char :: nat) = 181 then Inr 924
      else if (of_char char :: nat) = 255 then Inr 376
      else Inr (of_char (to_upper char)))"

text \<open>
  One round of the loop of \<open>validate_pan_check_digit\<close>: the value of a character
  (\<open>int(char)\<close> raises \<open>ValueError\<close> on a character that is neither a letter nor a
  digit), times its weight, the two parts of a result above 9 added together.
\<close>

definition char_value :: "char \<Rightarrow> error + int" where
  "char_value char =
     (if isalpha char then
        (case upper_ord char of Inl e \<Rightarrow> Inl e | Inr u \<Rightarrow> Inr (int u - 65 + 10))
      else if is_digit char then Inr (int (of_char char) - 48)
      else Inl ValueError)"

fun pan_sum :: "(char \<times> int) list \<Rightarrow> int \<Rightarrow> error + int" where
  "pan_sum [] sum_total = Inr sum_total"
| "pan_sum ((char, weight) # rest) sum_total =
     (case char_value char of
        Inl e \<Rightarrow> Inl e
      | Inr v \<Rightarrow>
          (let weighted_value = v * weight;
               weighted_value =
                 (if weighted_value > 9 then weighted_value div 10 + weighted_value mod 10
                  else weighted_value)
           in pan_sum rest (sum_total + weighted_value)))"

definition weights :: "int list" where
  "weights = [1, 3, 7, 1, 3, 7, 1, 3, 7]"

definition validate_pan_check_digit :: "string \<Rightarrow> error + bool" where
  "validate_pan_check_digit pan =
     (if length pan \<noteq> 10 then Inr False
      else case pan_sum (zip (take 9 pan) weights) 0 of
             Inl e \<Rightarrow> Inl e
           | Inr sum_total \<Rightarrow>
               (let check_digit_value = (10 - sum_total mod 10) mod 10;
                    expected_check_digit = char_of (65 + nat check_digit_value)
                in Inr (pan ! 9 = expected_check_digit)))"

text \<open>
  \<open>re.match(r"^[A-Z]{5}[0-9]{4}[A-Z]{1}$", pan)\<close>. The string has been stripped, so
  it has no final newline for \<open>$\<close> to match before.
\<close>

definition pan_format :: "string \<Rightarrow> bool" where
  "pan_format pan =
     (length pan = 10 \<and> list_all is_upper (take 5 pan)
      \<and> list_all is_digit (take 4 (drop 5 pan)) \<and> is_upper (pan ! 9))"

text \<open>
  The surname test of \<open>validate_pan\<close>: \<open>Inr True\<close> when it rejects the number.
  \<open>surname.strip().upper()[0]\<close> raises \<open>IndexError\<close> for a surname of whitespace only.
\<close>

definition surname_mismatch :: "string \<Rightarrow> string option \<Rightarrow> error + bool" where
  "surname_mismatch pan surname =
     (case surname of
        None \<Rightarrow> Inr False
      | Some sn \<Rightarrow>
          if pan ! 3 = CHR ''P'' \<and> sn \<noteq> [] then
            (case upper (strip sn) of
               [] \<Rightarrow> Inl IndexError
             | initial # _ \<Rightarrow> Inr (pan ! 4 \<noteq> initial))
          else Inr False)"

definition validate_pan :: "string \<Rightarrow> string option \<Rightarrow> error + bool" where
  "validate_pan pan0 surname =
     (if pan0 = [] then Inr False
      else
        let pan = upper (strip pan0) in
        if length pan \<noteq> 10 then Inr False
        else if \<not> pan_format pan then Inr False
        else if pan ! 3 \<notin> set ''ABCFGHLJPT'' then Inr False
        else
          case surname_mismatch pan surname of
            Inl e \<Rightarrow> Inl e
          | Inr True \<Rightarrow> Inr False
          | Inr False \<Rightarrow>
              if pan ! 3 \<in> set ''CFHATBLJG'' \<and> \<not> isalpha (pan ! 4) then Inr False
              else validate_pan_check_digit pan)"

definition valid_local_char :: "char \<Rightarrow> bool" where
  "valid_local_char c =
     (is_alnum c \<or> c \<in> set ''.!#$%&*+/=?^_`{|}~-'' \<or> c = CHR 0x27)"

definition valid_domain_char :: "char \<Rightarrow> bool" where
  "valid_domain_char c = (is_alnum c \<or> c = CHR ''.'' \<or> c = CHR ''-'')"

definition validate_email :: "string \<Rightarrow> bool" where
  "validate_email email0 =
     (if email0 = [] then False
      else
        let email = strip email0 in
        if length email < 5 \<or> length email > 254 then False
        else if count_char CHR ''@'' email \<noteq> 1 then False
        else
          let local_part = takeWhile (\<lambda>c. c \<noteq> CHR ''@'') email;
              domain_part = tl (dropWhile (\<lambda>c. c \<noteq> CHR ''@'') email)
          in
          if length local_part < 1 \<or> length local_part > 64 then False
          else if length domain_part < 1 \<or> length domain_part > 253 then False
          else if contains ''..'' email then False
          else if \<not> list_all valid_local_char local_part then False
          else if \<not> list_all valid_domain_char domain_part then False
          else if CHR ''.'' \<notin> set domain_part then False
          else if hd domain_part = CHR ''.'' \<or> last domain_part = CHR ''.''
                  \<or> hd domain_part = CHR ''-'' \<or> last domain_part = CHR ''-'' then False
          else
            let tld = rev (takeWhile (\<lambda>c. c \<noteq> CHR ''.'') (rev domain_part))
            in \<not> length tld < 2)"

text \<open>
  A candidate value as \<open>is_valid_pii\<close> may receive it: \<open>None\<close>, a string, or the
  tuple of groups of a match, whose parts are strings or \<open>None\<close>.
\<close>

datatype match_value = VNone | VStr string | VTuple "string option list"

text \<open>
  \<open>_normalize_match_value\<close>: the first non-empty string of a tuple; when there is
  none, the join of the parts that are true, which is then the empty string.
\<close>

fun first_nonempty :: "string option list \<Rightarrow> string option" where
  "first_nonempty [] = None"
| "first_nonempty (None # parts) = first_nonempty parts"
| "first_nonempty (Some p # parts) = (if p \<noteq> [] then Some p else first_nonempty parts)"

definition normalize_match_value :: "match_value \<Rightarrow> string" where
  "normalize_match_value raw_value =
     (case raw_value of
        VNone \<Rightarrow> []
      | VStr s \<Rightarrow> s
      | VTuple parts \<Rightarrow>
          (case first_nonempty parts of
             Some part \<Rightarrow> part
           | None \<Rightarrow> concat (map (\<lambda>p. case p of None \<Rightarrow> [] | Some s \<Rightarrow> s)
                                (filter (\<lambda>p. p \<noteq> None \<and> p \<noteq> Some []) parts))))"

definition is_valid_pii :: "checks \<Rightarrow> string \<Rightarrow> match_value \<Rightarrow> error + bool" where
  "is_valid_pii alg pii_type raw_value =
     (let val = normalize_match_value raw_value;
          digits = digits_only val;
          mapped_type = mapped_type_of pii_type
      in
      if mapped_type = ''aadhaar'' then
        Inr (length digits = 12 \<and> hd digits \<in> set ''23456789'' \<and> verhoeff_check alg digits)
      else if mapped_type = ''pan'' then validate_pan val None
      else if mapped_type = ''credit_card'' then
        Inr (13 \<le> length digits \<and> length digits \<le> 19 \<and> luhn_check alg val)
      else if mapped_type = ''email'' then Inr (validate_email val)
      else if mapped_type = ''phone'' then
        Inr (length digits = 10 \<and> hd digits \<in> set ''6789'' \<and> list_all is_digit (tl digits))
      else Inr False)"

text \<open>
  The loop of \<open>any_true_pii\<close>, and of the orchestrator's search for a valid detection:
  stop with true at the first candidate that validates.
\<close>

fun any_valid :: "checks \<Rightarrow> (string \<times> string) list \<Rightarrow> error + bool" where
  "any_valid alg [] = Inr False"
| "any_valid alg ((pii_type, m) # rest) =
     (case is_valid_pii alg pii_type (VStr m) of
        Inl e \<Rightarrow> Inl e
      | Inr True \<Rightarrow> Inr True
      | Inr False \<Rightarrow> any_valid alg rest)"

definition any_true_pii :: "checks \<Rightarrow> string option \<Rightarrow> error + bool" where
  "any_true_pii alg text =
     (case text of
        None \<Rightarrow> Inr False
      | Some t \<Rightarrow> if t = [] then Inr False else any_valid alg (detect_pii (Some t)))"

text \<open>
  The loop of \<open>validate_pan_check_digit\<close> in closed form, for characters that the
  format check has admitted: the value of a character, what the loop adds for a
  product, and the letter the loop expects.
\<close>

definition letter_value :: "char \<Rightarrow> int" where
  "letter_value c = (if is_digit c then int (of_char c) - 48 else int (of_char c) - 55)"

definition weighted_value :: "int \<Rightarrow> int" where
  "weighted_value p = (if p > 9 then p div 10 + p mod 10 else p)"

definition expected_check_digit :: "string \<Rightarrow> char" where
  "expected_check_digit first_nine =
     (let sum_total = sum_list (map (\<lambda>(c, w). weighted_value (letter_value c * w))
                                    (zip first_nine weights))
      in char_of (65 + nat ((10 - sum_total mod 10) mod 10)))"

text \<open>
  The check digit as the validator's contract words it. A digit counts as itself, a
  letter as its place in the alphabet from \<open>A = 10\<close> to \<open>Z = 35\<close>; the nine values are
  multiplied place by place by the weights 1, 3, 7, 1, 3, 7, 1, 3, 7; a two-digit
  product is replaced by the sum of its digits; the nine results are added up, and
  \<open>(10 - (sum mod 10)) mod 10\<close> selects one of the letters \<open>A\<close> to \<open>J\<close>. The contract
  says nothing of a product of three digits, which is left as it is here; the
  statements below are about numbers that have none.
\<close>

definition spec_value :: "char \<Rightarrow> nat" where
  "spec_value c = (if is_digit c then of_char c - 48 else 10 + (of_char c - 65))"

fun digit_sum :: "nat \<Rightarrow> nat" where
  "digit_sum n = (if n < 10 then n else n mod 10 + digit_sum (n div 10))"

declare digit_sum.simps [simp del]

definition spec_products :: "string \<Rightarrow> nat list" where
  "spec_products first_nine =
     map (\<lambda>(c, w). spec_value c * w) (zip first_nine [1, 3, 7, 1, 3, 7, 1, 3, 7])"

definition spec_result :: "nat \<Rightarrow> nat" where
  "spec_result p = (if 10 \<le> p \<and> p \<le> 99 then digit_sum p else p)"

definition spec_check_letter :: "string \<Rightarrow> char" where
  "spec_check_letter first_nine =
     (let total = sum_list (map spec_result (spec_products first_nine))
      in ''ABCDEFGHIJ'' ! ((10 - total mod 10) mod 10))"

text \<open>No product of the nine has three digits.\<close>

definition two_digit_products :: "string \<Rightarrow> bool" where
  "two_digit_products first_nine = list_all (\<lambda>p. p \<le> 99) (spec_products first_nine)"

section \<open>De-identification (deidentification/)\<close>

subsection \<open>Masking (masking.py)\<close>

text \<open>\<open>s[-n:]\<close>: the last \<open>n\<close> characters, all of \<open>s\<close> when it is shorter.\<close>

definition last_chars :: "nat \<Rightarrow> string \<Rightarrow> string" where
  "last_chars n s = drop (length s - n) s"

definition mask_aadhaar :: "string \<Rightarrow> string" where
  "mask_aadhaar aadhaar =
     (if length (digits_only aadhaar) = 12
      then take 4 aadhaar @ ''-XXXX-'' @ last_chars 4 aadhaar
      else aadhaar)"

definition mask_pan :: "string \<Rightarrow> string" where
  "mask_pan pan = (if length pan = 10 then take 5 pan @ ''****'' @ last_chars 1 pan else pan)"

definition mask_credit_card :: "string \<Rightarrow> string" where
  "mask_credit_card card_number =
     (let digits = digits_only card_number
      in if length digits < 13 then card_number
         else ''XXXX-XXXX-XXXX-'' @ last_chars 4 digits)"

text \<open>
  \<open>u, d = email.split("@")\<close> succeeds when the string has exactly one \<open>@\<close>; any other
  string raises inside the \<open>try\<close> and is returned as it is.
\<close>

definition mask_email :: "string \<Rightarrow> string" where
  "mask_email email =
     (if count_char CHR ''@'' email = 1
      then replicate (length (takeWhile (\<lambda>c. c \<noteq> CHR ''@'') email)) CHR ''x''
           @ ''@'' @ tl (dropWhile (\<lambda>c. c \<noteq> CHR ''@'') email)
      else email)"

definition mask_phone :: "string \<Rightarrow> string" where
  "mask_phone phone =
     (let digits = digits_only phone
      in if length digits = 10 then ''XXXXXX'' @ last_chars 4 digits else ''XXXXXXXXXX'')"

definition mask_pii :: "string \<Rightarrow> string \<Rightarrow> string" where
  "mask_pii pii_type val =
     (let mapped_type = mapped_type_of pii_type
      in if mapped_type = ''aadhaar'' then mask_aadhaar val
         else if mapped_type = ''pan'' then mask_pan val
         else if mapped_type = ''credit_card'' then mask_credit_card val
         else if mapped_type = ''email'' then mask_email val
         else if mapped_type = ''phone'' then mask_phone val
         else val)"

subsection \<open>The state of a run\<close>

text \<open>
  The module-level dictionaries \<open>pseudo_counters\<close> and \<open>pseudo_maps\<close>, the two
  attributes that \<open>selective_deidentify\<close> attaches to itself at its first call
  (\<open>None\<close> while the attribute does not exist), and the random generator: an
  arbitrary infinite sequence of draws, of which each random choice consumes one.
\<close>

record state =
  pseudo_counters :: "string \<rightharpoonup> nat"
  pseudo_maps :: "string \<rightharpoonup> (string \<rightharpoonup> string)"
  email_map :: "(string \<rightharpoonup> string) option"
  email_counter :: "nat option"
  rng :: "nat \<Rightarrow> nat"

definition initial_state :: "(nat \<Rightarrow> nat) \<Rightarrow> state" where
  "initial_state draws =
     \<lparr>pseudo_counters = map_of (map (\<lambda>(pii_type, p). (pii_type, 1)) patterns),
      pseudo_maps = map_of (map (\<lambda>(pii_type, p). (pii_type, Map.empty)) patterns),
      email_map = None, email_counter = None, rng = draws\<rparr>"

text \<open>\<open>random.choices(population, k=k)\<close>; \<open>random.choice\<close> is the case \<open>k = 1\<close>.\<close>

definition random_choices :: "string \<Rightarrow> nat \<Rightarrow> state \<Rightarrow> string \<times> state" where
  "random_choices population k st =
     (map (\<lambda>j. population ! (rng st j mod length population)) [0..<k],
      st\<lparr>rng := (\<lambda>j. rng st (j + k))\<rparr>)"

definition ascii_lowercase :: string where
  "ascii_lowercase = ''abcdefghijklmnopqrstuvwxyz''"

definition ascii_uppercase :: string where
  "ascii_uppercase = ''ABCDEFGHIJKLMNOPQRSTUVWXYZ''"

definition ascii_digits :: string where
  "ascii_digits = ''0123456789''"

subsection \<open>Anonymization (anonymization.py)\<close>

text \<open>\<open>random_string\<close> draws from \<open>string.ascii_letters + string.digits\<close>.\<close>

definition random_string :: "nat \<Rightarrow> state \<Rightarrow> string \<times> state" where
  "random_string len st =
     random_choices (ascii_lowercase @ ascii_uppercase @ ascii_digits) len st"

definition anonymize_pii :: "string \<Rightarrow> string \<Rightarrow> state \<Rightarrow> string \<times> state" where
  "anonymize_pii pii_type val st =
     (let mapped_type = mapped_type_of pii_type
      in if mapped_type = ''credit_card'' then random_string 16 st
         else if mapped_type = ''email'' then
           (let (a, st1) = random_string 8 st; (b, st2) = random_string 5 st1
            in (a @ ''@'' @ b @ ''.com'', st2))
         else if mapped_type = ''aadhaar'' then random_string 12 st
         else if mapped_type = ''pan'' then
           (let (a, st1) = random_string 5 st; (b, st2) = random_string 4 st1;
                (c, st3) = random_string 1 st2
            in (upper a @ b @ upper c, st3))
         else if mapped_type = ''phone'' then
           (let (a, st1) = random_string 9 st in (''9'' @ a, st1))
         else random_string 10 st)"

subsection \<open>Pseudonymization and the selective strategy (pseudonymization.py)\<close>

text \<open>
  Both branches of pseudonymization do the same with the dictionaries: look the value
  up in the map of the type, and when it is new, store the replacement made from the
  counter of the type and add one to the counter. A type that is not a key of the
  dictionaries raises \<open>KeyError\<close>, before anything is changed.
\<close>

definition lookup_or_assign ::
    "string \<Rightarrow> string \<Rightarrow> (nat \<Rightarrow> string) \<Rightarrow> state \<Rightarrow> error + (string \<times> state)" where
  "lookup_or_assign pii_type val fmt st =
     (case pseudo_maps st pii_type of
        None \<Rightarrow> Inl KeyError
      | Some m \<Rightarrow>
          (case m val of
             Some r \<Rightarrow> Inr (r, st)
           | None \<Rightarrow>
               (case pseudo_counters st pii_type of
                  None \<Rightarrow> Inl KeyError
                | Some c \<Rightarrow>
                    Inr (fmt c,
                         st\<lparr>pseudo_maps := (pseudo_maps st)(pii_type \<mapsto> m(val \<mapsto> fmt c)),
                            pseudo_counters := (pseudo_counters st)(pii_type \<mapsto> c + 1)\<rparr>))))"

definition pseudo_anonymize :: "string \<Rightarrow> string \<Rightarrow> state \<Rightarrow> error + (string \<times> state)" where
  "pseudo_anonymize val pii_type st =
     lookup_or_assign pii_type val (\<lambda>c. pii_type @ ''_'' @ str_nat c) st"

text \<open>
  \<open>_, domain = value.strip().split("@")\<close>, with \<open>gmail.com\<close> when the stripped value
  does not split in two.
\<close>

definition email_domain :: "string \<Rightarrow> string" where
  "email_domain val =
     (let s = strip val
      in if count_char CHR ''@'' s = 1 then tl (dropWhile (\<lambda>c. c \<noteq> CHR ''@'') s)
         else ''gmail.com'')"

definition pseudo_anonymize_pii :: "string \<Rightarrow> string \<Rightarrow> state \<Rightarrow> error + (string \<times> state)" where
  "pseudo_anonymize_pii pii_type val st =
     (let mapped_type = mapped_type_of pii_type
      in if mapped_type = ''email'' then
           (let domain = email_domain val
            in lookup_or_assign ''email'' val (\<lambda>c. ''user'' @ str_nat c @ ''@'' @ domain) st)
         else pseudo_anonymize val mapped_type st)"

definition selective_deidentify :: "string \<Rightarrow> string \<Rightarrow> state \<Rightarrow> string \<times> state" where
  "selective_deidentify pii_type val st0 =
     (let m = (case email_map st0 of None \<Rightarrow> Map.empty | Some m0 \<Rightarrow> m0);
          c = (case email_counter st0 of None \<Rightarrow> 1 | Some c0 \<Rightarrow> c0);
          st = st0\<lparr>email_map := Some m, email_counter := Some c\<rparr>;
          ty = lower pii_type
      in if ty = ''credit_card'' then
           (let digits = digits_only val
            in if length digits < 13 then (val, st)
               else (''XXXX-XXXX-XXXX-'' @ last_chars 4 digits, st))
         else if ty = ''email'' then
           (let domain = email_domain val
            in case m val of
                 Some r \<Rightarrow> (r, st)
               | None \<Rightarrow>
                   (let pseudo_email = ''email'' @ str_nat c @ ''@'' @ domain
                    in (pseudo_email,
                        st\<lparr>email_map := Some (m(val \<mapsto> pseudo_email)),
                           email_counter := Some (c + 1)\<rparr>)))
         else if ty = ''aadhaar'' then
           (let digits = digits_only val
            in if length digits = 12 then (take 4 digits @ ''XXXX'' @ drop 8 digits, st)
               else (val, st))
         else if ty = ''pan'' then
           (let (a, st1) = random_choices ascii_uppercase 5 st;
                (b, st2) = random_choices ascii_digits 4 st1;
                (d, st3) = random_choices ascii_uppercase 1 st2
            in (a @ b @ d, st3))
         else (val, st))"

subsection \<open>The dispatch (deidentifier.py)\<close>

definition deidentify_value ::
    "string \<Rightarrow> string \<Rightarrow> string \<Rightarrow> state \<Rightarrow> error + (string \<times> state)" where
  "deidentify_value method pii_type val st =
     (if method = ''Masking'' then Inr (mask_pii pii_type val, st)
      else if method = ''Anonymization'' then Inr (anonymize_pii pii_type val st)
      else if method = ''Pseudo-Anonymization'' then pseudo_anonymize_pii pii_type val st
      else if method = ''Selective'' then Inr (selective_deidentify pii_type val st)
      else Inr (val, st))"


text \<open>The replacement that pseudonymization makes from counter \<open>n\<close> for a value.\<close>

definition replacement :: "string \<Rightarrow> nat \<Rightarrow> string \<Rightarrow> string" where
  "replacement mapped_type n val =
     (if mapped_type = ''email'' then ''user'' @ str_nat n @ ''@'' @ email_domain val
      else mapped_type @ ''_'' @ str_nat n)"

section \<open>The classification of a cell (main.py, analyze_dataframe)\<close>

datatype outcome = TP | TN | FP | FN

record metrics =
  m_TP :: nat
  m_TN :: nat
  m_FP :: nat
  m_FN :: nat

text \<open>
  The metrics half of the loop body of \<open>analyze_dataframe\<close>, for one cell, whose value
  is a string (\<open>astype(str)\<close>).
\<close>

definition classify_cell :: "checks \<Rightarrow> string \<Rightarrow> error + outcome" where
  "classify_cell alg val =
     (let detections = detect_pii (Some val)
      in case any_true_pii alg (Some val) of
           Inl e \<Rightarrow> Inl e
         | Inr has_ground_truth \<Rightarrow>
             (let has_detection = (detections \<noteq> [])
              in if has_detection then
                   (case any_valid alg detections of
                      Inl e \<Rightarrow> Inl e
                    | Inr valid_detection \<Rightarrow>
                        if valid_detection \<and> has_ground_truth then Inr TP
                        else if valid_detection \<and> \<not> has_ground_truth then Inr FP
                        else if \<not> valid_detection \<and> has_ground_truth then Inr FN
                        else Inr FP)
                 else if has_ground_truth then Inr FN
                 else Inr TN))"

text \<open>\<open>metrics[outcome] += 1\<close>\<close>

definition count_outcome :: "outcome \<Rightarrow> metrics \<Rightarrow> metrics" where
  "count_outcome oc m =
     (case oc of
        TP \<Rightarrow> m\<lparr>m_TP := m_TP m + 1\<rparr>
      | TN \<Rightarrow> m\<lparr>m_TN := m_TN m + 1\<rparr>
      | FP \<Rightarrow> m\<lparr>m_FP := m_FP m + 1\<rparr>
      | FN \<Rightarrow> m\<lparr>m_FN := m_FN m + 1\<rparr>)"

fun analyze_cells :: "checks \<Rightarrow> string list \<Rightarrow> metrics \<Rightarrow> error + metrics" where
  "analyze_cells alg [] m = Inr m"
| "analyze_cells alg (val # vals) m =
     (case classify_cell alg val of
        Inl e \<Rightarrow> Inl e
      | Inr oc \<Rightarrow> analyze_cells alg vals (count_outcome oc m))"

text \<open>
  The counts that \<open>analyze_dataframe\<close> returns for a dataframe, given as its columns
  in order, each with its cells in order. The rewriting of the cells does not touch
  the counts and is not part of the model.
\<close>

definition analyze_dataframe :: "checks \<Rightarrow> (string \<times> string list) list \<Rightarrow> error + metrics" where
  "analyze_dataframe alg df =
     analyze_cells alg (concat (map snd df)) \<lparr>m_TP = 0, m_TN = 0, m_FP = 0, m_FN = 0\<rparr>"

text \<open>The decision table of the classification policy, row by row.\<close>

definition decision_table :: "bool \<Rightarrow> bool \<Rightarrow> bool \<Rightarrow> outcome" where
  "decision_table detection_present confirmed ground_truth =
     (if detection_present \<and> confirmed \<and> ground_truth then TP
      else if detection_present \<and> confirmed \<and> \<not> ground_truth then FP
      else if detection_present \<and> \<not> confirmed \<and> ground_truth then FN
      else if detection_present \<and> \<not> confirmed \<and> \<not> ground_truth then FP
      else if \<not> detection_present \<and> ground_truth then FN
      else TN)"


definition known_types :: "string set" where
  "known_types = set (map fst patterns)"



section \<open>Properties of the detector\<close>

lemma final_list_from_spans:
  assumes "(t, v) \<in> set (final_list spans)"
  shows "\<exists>s e. (t, v, s, e) \<in> set spans"
  using assms by (auto simp: final_list_def)

lemma drop_contained_aadhaar_subset:
  "set (drop_contained_aadhaar spans) \<subseteq> set spans"
  by (auto simp: drop_contained_aadhaar_def Let_def)

lemma drop_12_digit_cards_sound:
  assumes "(t, v, s, e) \<in> set (drop_12_digit_cards spans)"
  shows "\<not> (t = ''credit_card'' \<and> length (digits_only v) = 12)"
  using assms by (auto simp: drop_12_digit_cards_def)

lemma detect_pii_from_spans:
  assumes "(t, v) \<in> set (detect_pii text)"
  shows "\<exists>s e. (t, v, s, e) \<in>
           set (drop_12_digit_cards (collect_spans (case text of None \<Rightarrow> [] | Some x \<Rightarrow> x)))"
proof -
  let ?spans = "collect_spans (case text of None \<Rightarrow> [] | Some x \<Rightarrow> x)"
  from assms have "(t, v) \<in> set (final_list (drop_contained_aadhaar (drop_12_digit_cards ?spans)))"
    by (simp add: detect_pii_def Let_def split: if_splits)
  then obtain s e where "(t, v, s, e) \<in> set (drop_contained_aadhaar (drop_12_digit_cards ?spans))"
    using final_list_from_spans by blast
  then have "(t, v, s, e) \<in> set (drop_12_digit_cards ?spans)"
    using drop_contained_aadhaar_subset by blast
  then show ?thesis by blast
qed

lemma collect_spans_empty: "collect_spans [] = []"
  by code_simp

lemma detect_pii_twelve_digits:
  "detect_pii (Some ''123456789012'') = [(''aadhaar'', ''123456789012'')]"
  by code_simp

text \<open>
  C6: for every input text, \<open>detect_pii\<close> returns no \<open>credit_card\<close> candidate whose
  digits, separators stripped, number exactly 12; the text \<open>123456789012\<close> is
  classified as \<open>aadhaar\<close> only.
\<close>

theorem detect_pii_no_12_digit_credit_card:
  "(\<forall>text t v. (t, v) \<in> set (detect_pii text) \<longrightarrow>
       \<not> (t = ''credit_card'' \<and> length (digits_only v) = 12))
   \<and> detect_pii (Some ''123456789012'') = [(''aadhaar'', ''123456789012'')]"
proof (intro conjI allI impI)
  fix tx t v
  assume "(t, v) \<in> set (detect_pii tx)"
  then obtain s e where
    "(t, v, s, e) \<in> set (drop_12_digit_cards (collect_spans (case tx of None \<Rightarrow> [] | Some x \<Rightarrow> x)))"
    using detect_pii_from_spans by blast
  then show "\<not> (t = ''credit_card'' \<and> length (digits_only v) = 12)"
    by (rule drop_12_digit_cards_sound)
next
  show "detect_pii (Some ''123456789012'') = [(''aadhaar'', ''123456789012'')]"
    by (rule detect_pii_twelve_digits)
qed

theorem detect_pii_no_12_digit_credit_card_witness:
  "(''aadhaar'', ''123456789012'') \<in> set (detect_pii (Some ''123456789012''))
   \<and> \<not> (''aadhaar'' = ''credit_card'' \<and> length (digits_only ''123456789012'') = 12)"
  using detect_pii_no_12_digit_credit_card by simp

section \<open>Empty and missing text\<close>

lemma detect_pii_None: "detect_pii None = []"
  by (simp add: detect_pii_def collect_spans_empty)

lemma detect_pii_empty: "detect_pii (Some []) = []"
  by (simp add: detect_pii_def collect_spans_empty)

text \<open>
  C9: for an empty or missing text, \<open>detect_pii\<close> returns the empty candidate list and
  \<open>any_true_pii\<close> returns false; both return a value, neither raises.
\<close>

theorem empty_text_no_candidates:
  "detect_pii None = [] \<and> detect_pii (Some []) = []
   \<and> any_true_pii alg None = Inr False \<and> any_true_pii alg (Some []) = Inr False"
  by (simp add: detect_pii_None detect_pii_empty any_true_pii_def)

section \<open>Properties of the PAN validator\<close>

lemma dropWhile_same_length:
  "length (dropWhile P xs) = length xs \<Longrightarrow> dropWhile P xs = xs"
proof (cases xs)
  case Nil
  then show ?thesis by simp
next
  case (Cons x ys)
  assume h: "length (dropWhile P xs) = length xs"
  show ?thesis
  proof (cases "P x")
    case True
    have "length (dropWhile P ys) \<le> length ys" by (rule length_dropWhile_le)
    with True Cons h show ?thesis by simp
  next
    case False
    with Cons show ?thesis by simp
  qed
qed

lemma strip_same_length:
  assumes "length (strip s) = length s"
  shows "strip s = s"
proof -
  have a: "length (strip s) \<le> length (dropWhile is_space s)"
    unfolding strip_def by (metis length_dropWhile_le length_rev)
  have b: "length (dropWhile is_space s) \<le> length s" by (rule length_dropWhile_le)
  from a b assms have c: "length (dropWhile is_space s) = length s" by simp
  then have d: "dropWhile is_space s = s" by (rule dropWhile_same_length)
  from assms d have "length (dropWhile is_space (rev s)) = length (rev s)"
    by (simp add: strip_def)
  then have "dropWhile is_space (rev s) = rev s" by (rule dropWhile_same_length)
  with d show ?thesis by (simp add: strip_def)
qed

lemma strip_length_le: "length (strip s) \<le> length s"
proof -
  have "length (strip s) \<le> length (dropWhile is_space s)"
    unfolding strip_def by (metis length_dropWhile_le length_rev)
  also have "\<dots> \<le> length s" by (rule length_dropWhile_le)
  finally show ?thesis .
qed

lemma set_strip: "set (strip s) \<subseteq> set s"
proof -
  have "set (strip s) \<subseteq> set (dropWhile is_space s)"
    unfolding strip_def using set_dropWhileD by fastforce
  also have "\<dots> \<subseteq> set s" using set_dropWhileD by fastforce
  finally show ?thesis .
qed

lemma strip_ends:
  assumes "s \<noteq> []" and "\<not> is_space (hd s)" and "\<not> is_space (last s)"
  shows "strip s = s"
proof -
  from assms(1,2) have a: "dropWhile is_space s = s" by (cases s) simp_all
  from assms(1,3) have "dropWhile is_space (rev s) = rev s"
    by (cases "rev s") (simp_all add: last_rev [symmetric] hd_rev)
  with a show ?thesis by (simp add: strip_def)
qed

lemma strip_fixed_hd:
  assumes "strip s = s" and "s \<noteq> []"
  shows "\<not> is_space (hd s)"
proof
  assume sp: "is_space (hd s)"
  from assms(2) obtain x xs where s: "s = x # xs" by (cases s) auto
  with sp have "length (dropWhile is_space s) \<le> length xs"
    using length_dropWhile_le [of is_space xs] by simp
  moreover have "length (strip s) \<le> length (dropWhile is_space s)"
    unfolding strip_def by (metis length_dropWhile_le length_rev)
  ultimately have "length (strip s) < length s" using s by simp
  with assms(1) show False by simp
qed

lemma strip_space_last:
  assumes "s \<noteq> []" and "is_space (last s)"
  shows "length (strip s) < length s"
proof -
  from assms have n: "strip s \<noteq> s"
  proof -
    have False if eq: "strip s = s"
    proof -
      let ?d = "dropWhile is_space s"
      have le: "length ?d \<le> length s" by (rule length_dropWhile_le)
      have "length (strip s) \<le> length ?d"
        unfolding strip_def by (metis length_dropWhile_le length_rev)
      with eq le have "length ?d = length s" by simp
      then have d: "?d = s" by (rule dropWhile_same_length)
      with eq have r: "dropWhile is_space (rev s) = rev s"
        by (simp add: strip_def) (metis rev_rev_ident)
      from assms(1) obtain y ys where ys: "rev s = y # ys" by (cases "rev s") auto
      with assms have "is_space y" by (metis hd_rev list.sel(1))
      with ys have "length (dropWhile is_space (rev s)) \<le> length ys"
        using length_dropWhile_le [of is_space ys] by simp
      with r ys show False by simp
    qed
    then show ?thesis by blast
  qed
  have "length (strip s) \<le> length s" by (rule strip_length_le)
  moreover from n have "length (strip s) \<noteq> length s" using strip_same_length by blast
  ultimately show ?thesis by simp
qed

lemma sharp_s_code: "(of_char (CHR 0xDF) :: nat) = 223"
  by simp

lemma ascii_no_sharp_s: "ascii s \<Longrightarrow> CHR 0xDF \<notin> set s"
  by (auto simp: ascii_def list_all_iff)

lemma upper_plain:
  assumes "CHR 0xDF \<notin> set s"
  shows "upper s = map to_upper s"
  using assms by (induction s) (auto simp: upper_def upper_char_def)

lemma upper_append: "upper (xs @ ys) = upper xs @ upper ys"
  by (simp add: upper_def)

lemma ascii_take: "ascii s \<Longrightarrow> ascii (take n s)"
  by (auto simp: ascii_def list_all_iff dest: in_set_takeD)

lemma check_letters: "map char_of [65..<75::nat] = ''ABCDEFGHIJ''"
  by code_simp

lemma check_letter:
  assumes "n < 10"
  shows "char_of (65 + n :: nat) = ''ABCDEFGHIJ'' ! n"
proof -
  from assms have len: "n < length [65..<75::nat]"
    by simp
  from assms have "65 + n < (75::nat)" by simp
  then have "[65..<75::nat] ! n = 65 + n" by (rule nth_upt)
  with nth_map [OF len, of char_of]
  have "map char_of [65..<75::nat] ! n = char_of (65 + n)" by (simp only:)
  then show ?thesis by (simp only: check_letters)
qed

lemma upper_not_lower: "is_upper c \<Longrightarrow> to_upper c = c"
  by (simp add: is_upper_def is_lower_def to_upper_def)

lemma upper_not_digit: "is_upper c \<Longrightarrow> \<not> is_digit c"
  by (simp add: is_upper_def is_digit_def)

lemma digit_not_alpha: "is_digit c \<Longrightarrow> \<not> isalpha c"
  by (auto simp add: is_upper_def is_digit_def is_alpha_def is_lower_def isalpha_def
                     is_high_letter_def)

lemma upper_ord_upper: "is_upper c \<Longrightarrow> upper_ord c = Inr (of_char c)"
proof -
  assume u: "is_upper c"
  then have "c \<noteq> CHR 0xDF" using sharp_s_code by (auto simp: is_upper_def)
  with u show ?thesis
    by (simp add: upper_ord_def upper_not_lower) (simp add: is_upper_def)
qed

lemma char_value_upper: "is_upper c \<Longrightarrow> char_value c = Inr (letter_value c)"
  by (simp add: char_value_def letter_value_def isalpha_def is_alpha_def upper_ord_upper
                upper_not_digit)

lemma char_value_digit: "is_digit c \<Longrightarrow> char_value c = Inr (letter_value c)"
  by (simp add: char_value_def letter_value_def digit_not_alpha)

lemma pan_sum_value:
  assumes "list_all (\<lambda>(c, w). is_upper c \<or> is_digit c) xs"
  shows "pan_sum xs acc =
           Inr (acc + sum_list (map (\<lambda>(c, w). weighted_value (letter_value c * w)) xs))"
  using assms
proof (induction xs arbitrary: acc)
  case Nil
  then show ?case by simp
next
  case (Cons x xs)
  obtain c w where x: "x = (c, w)" by (cases x)
  from Cons.prems x have cv: "char_value c = Inr (letter_value c)"
    using char_value_upper char_value_digit by auto
  from Cons.prems have rest: "list_all (\<lambda>(c, w). is_upper c \<or> is_digit c) xs" by simp
  show ?case
    by (simp add: x cv Let_def Cons.IH [OF rest] weighted_value_def)
qed

lemma pan_format_chars:
  assumes "pan_format p"
  shows "list_all (\<lambda>c. is_upper c \<or> is_digit c) (take 9 p)"
proof -
  have "take 9 p = take 5 p @ take 4 (drop 5 p)"
    using take_add [of 5 4 p] by simp
  with assms show ?thesis
    by (auto simp: pan_format_def list_all_iff)
qed

lemma pan_format_first_nine:
  assumes "pan_format p"
  shows "list_all (\<lambda>(c, w). is_upper c \<or> is_digit c) (zip (take 9 p) weights)"
  using pan_format_chars [OF assms]
  by (auto simp: list_all_iff dest: set_zip_leftD)

lemma check_digit_of_format:
  assumes "pan_format p"
  shows "validate_pan_check_digit p = Inr (p ! 9 = expected_check_digit (take 9 p))"
proof -
  from assms have len: "length p = 10" by (simp add: pan_format_def)
  have s: "pan_sum (zip (take 9 p) weights) 0 =
             Inr (sum_list (map (\<lambda>(c, w). weighted_value (letter_value c * w))
                                (zip (take 9 p) weights)))"
    using pan_sum_value [OF pan_format_first_nine [OF assms], of 0] by simp
  with len show ?thesis
    by (simp add: validate_pan_check_digit_def expected_check_digit_def Let_def)
qed

text \<open>The loop and the contract agree on a product of at most two digits.\<close>

lemma spec_value_eq:
  assumes "is_upper c \<or> is_digit c"
  shows "letter_value c = int (spec_value c)"
  using assms
  by (auto simp: letter_value_def spec_value_def is_upper_def is_digit_def)

lemma spec_result_eq:
  assumes "p \<le> 99"
  shows "weighted_value (int p) = int (spec_result p)"
proof (cases "p < 10")
  case True
  then show ?thesis by (simp add: weighted_value_def spec_result_def)
next
  case False
  with assms have "p div 10 < 10" by simp
  then have "digit_sum (p div 10) = p div 10" by (simp add: digit_sum.simps [of "p div 10"])
  with False have "digit_sum p = p mod 10 + p div 10" by (simp add: digit_sum.simps [of p])
  with False assms show ?thesis
    by (simp add: weighted_value_def spec_result_def zdiv_int zmod_int)
qed

lemma spec_sum_eq:
  assumes "list_all (\<lambda>c. is_upper c \<or> is_digit c) nine"
    and "list_all (\<lambda>p. p \<le> 99) (map (\<lambda>(c, w). spec_value c * w) (zip nine ws))"
  shows "sum_list (map (\<lambda>(c, w). weighted_value (letter_value c * w)) (zip nine (map int ws)))
         = int (sum_list (map spec_result (map (\<lambda>(c, w). spec_value c * w) (zip nine ws))))"
  using assms
proof (induction nine arbitrary: ws)
  case Nil
  then show ?case by simp
next
  case (Cons c nine)
  show ?case
  proof (cases ws)
    case Nil
    then show ?thesis by simp
  next
    case (Cons w ws')
    from Cons.prems(1) have c: "is_upper c \<or> is_digit c"
      and rest: "list_all (\<lambda>c. is_upper c \<or> is_digit c) nine" by simp_all
    from Cons.prems(2) Cons have p: "spec_value c * w \<le> 99"
      and prest: "list_all (\<lambda>p. p \<le> 99) (map (\<lambda>(c, w). spec_value c * w) (zip nine ws'))"
      by simp_all
    have "weighted_value (letter_value c * int w) = int (spec_result (spec_value c * w))"
      using spec_value_eq [OF c] spec_result_eq [OF p] by simp
    with Cons.IH [OF rest prest] Cons show ?thesis by simp
  qed
qed

lemma weights_nat: "weights = map int [1, 3, 7, 1, 3, 7, 1, 3, 7]"
  by (simp add: weights_def)

lemma expected_is_spec:
  assumes chars: "list_all (\<lambda>c. is_upper c \<or> is_digit c) nine"
    and two: "two_digit_products nine"
  shows "expected_check_digit nine = spec_check_letter nine"
proof -
  let ?t = "sum_list (map spec_result (spec_products nine))"
  from two have "list_all (\<lambda>p. p \<le> 99)
                   (map (\<lambda>(c, w). spec_value c * w) (zip nine [1, 3, 7, 1, 3, 7, 1, 3, 7]))"
    by (simp only: two_digit_products_def spec_products_def)
  from spec_sum_eq [OF chars this]
  have s: "sum_list (map (\<lambda>(c, w). weighted_value (letter_value c * w)) (zip nine weights))
           = int ?t"
    by (simp only: weights_nat spec_products_def)
  have "(10 - int ?t mod 10) mod 10 = int ((10 - ?t mod 10) mod 10)"
    by (simp add: zmod_int of_nat_diff)
  then have n: "nat ((10 - int ?t mod 10) mod 10) = (10 - ?t mod 10) mod 10"
    by simp
  have "(10 - ?t mod 10) mod 10 < 10" by simp
  from check_letter [OF this] n s show ?thesis
    by (simp add: expected_check_digit_def spec_check_letter_def Let_def)
qed

lemma validate_pan_accepts:
  assumes "validate_pan pan0 surname = Inr True"
  shows "pan0 \<noteq> [] \<and> pan_format (upper (strip pan0))
         \<and> surname_mismatch (upper (strip pan0)) surname = Inr False
         \<and> upper (strip pan0) ! 3 \<in> set ''ABCFGHLJPT''
         \<and> validate_pan_check_digit (upper (strip pan0)) = Inr True"
  using assms
  by (auto simp: validate_pan_def Let_def split: if_splits sum.splits bool.splits)

lemma surname_mismatch_cong:
  assumes "p ! 3 = q ! 3" and "p ! 4 = q ! 4"
  shows "surname_mismatch p surname = surname_mismatch q surname"
  using assms by (simp add: surname_mismatch_def split: option.split list.split)

text \<open>
  C3, as amended: the validator upper-cases the number before it checks it. For every
  string of 10 ASCII characters that \<open>validate_pan\<close> accepts: when none of the nine
  weighted products of its upper case has three digits, the upper case of the 10th
  character is the check digit that the contract describes, computed from the first
  nine characters in upper case; and replacing the 10th character alone by any
  character whose upper case differs from that of the 10th character makes the
  validator return false.
\<close>

theorem validate_pan_check_letter:
  assumes asc: "ascii pan" and len: "length pan = 10"
    and ok: "validate_pan pan surname = Inr True"
  shows "(two_digit_products (upper (take 9 pan)) \<longrightarrow>
            to_upper (pan ! 9) = spec_check_letter (upper (take 9 pan)))
         \<and> (\<forall>c. to_upper c \<noteq> to_upper (pan ! 9) \<longrightarrow>
               validate_pan (take 9 pan @ [c]) surname = Inr False)"
proof -
  from validate_pan_accepts [OF ok]
  have fmt0: "pan_format (upper (strip pan))"
    and sn0: "surname_mismatch (upper (strip pan)) surname = Inr False"
    and chk0: "validate_pan_check_digit (upper (strip pan)) = Inr True"
    by simp_all
  from asc have ns: "CHR 0xDF \<notin> set pan" by (rule ascii_no_sharp_s)
  with set_strip [of pan] have "CHR 0xDF \<notin> set (strip pan)" by blast
  then have "upper (strip pan) = map to_upper (strip pan)" by (rule upper_plain)
  with fmt0 have "length (strip pan) = 10" by (simp add: pan_format_def)
  with len have st: "strip pan = pan" by (simp add: strip_same_length)
  let ?p = "upper pan"
  from ns have up: "?p = map to_upper pan" by (rule upper_plain)
  from fmt0 sn0 chk0 st
  have fmt: "pan_format ?p" and sn: "surname_mismatch ?p surname = Inr False"
    and chk: "validate_pan_check_digit ?p = Inr True"
    by simp_all
  from chk check_digit_of_format [OF fmt]
  have eq: "?p ! 9 = expected_check_digit (take 9 ?p)" by simp
  from len have p9: "?p ! 9 = to_upper (pan ! 9)" by (simp add: up)
  from ns have ns9: "CHR 0xDF \<notin> set (take 9 pan)" by (auto dest: in_set_takeD)
  then have u9: "upper (take 9 pan) = map to_upper (take 9 pan)" by (rule upper_plain)
  have t9: "take 9 ?p = upper (take 9 pan)" by (simp add: up u9 take_map)
  from len have l9: "length (take 9 ?p) = 9" by (simp add: up)
  have first: "two_digit_products (upper (take 9 pan)) \<longrightarrow>
            to_upper (pan ! 9) = spec_check_letter (upper (take 9 pan))"
  proof
    assume "two_digit_products (upper (take 9 pan))"
    then have two: "two_digit_products (take 9 ?p)" by (simp only: t9)
    from expected_is_spec [OF pan_format_chars [OF fmt] two] eq p9 t9
    show "to_upper (pan ! 9) = spec_check_letter (upper (take 9 pan))" by simp
  qed
  have second: "\<forall>c. to_upper c \<noteq> to_upper (pan ! 9) \<longrightarrow>
               validate_pan (take 9 pan @ [c]) surname = Inr False"
  proof (intro allI impI)
    fix c
    assume diff: "to_upper c \<noteq> to_upper (pan ! 9)"
    let ?pan2 = "take 9 pan @ [c]"
    from len have len2: "length ?pan2 = 10" by simp
    then have ne2: "?pan2 \<noteq> []" by auto
    from len have ne: "pan \<noteq> []" by auto
    from len have hd2: "hd ?pan2 = hd pan" by (cases pan) simp_all
    from strip_fixed_hd [OF st ne] hd2 have nsp: "\<not> is_space (hd ?pan2)" by simp
    show "validate_pan ?pan2 surname = Inr False"
    proof (cases "c = CHR 0xDF")
      case True
      then have "\<not> is_space (last ?pan2)" by (simp add: is_space_def)
      with ne2 nsp have st2: "strip ?pan2 = ?pan2" by (rule strip_ends)
      from True have "upper ?pan2 = upper (take 9 pan) @ ''SS''"
        by (simp add: upper_append) (simp add: upper_def upper_char_def)
      with u9 len have "length (upper ?pan2) = 11" by simp
      with st2 ne2 show ?thesis by (simp add: validate_pan_def Let_def)
    next
      case False
      with ns9 have "CHR 0xDF \<notin> set ?pan2" by simp
      with set_strip [of ?pan2] have "CHR 0xDF \<notin> set (strip ?pan2)" by blast
      then have us: "upper (strip ?pan2) = map to_upper (strip ?pan2)" by (rule upper_plain)
      show ?thesis
      proof (cases "length (strip ?pan2) = 10")
        case False
        with us ne2 show ?thesis by (simp add: validate_pan_def Let_def)
      next
        case True
        with len2 have st2: "strip ?pan2 = ?pan2" by (simp add: strip_same_length)
        let ?q = "upper ?pan2"
        from us st2 have q: "?q = take 9 ?p @ [to_upper c]"
          by (simp add: up take_map)
        have q3: "?q ! 3 = ?p ! 3" and q4: "?q ! 4 = ?p ! 4"
          using l9 by (simp_all add: q nth_append)
        have q9: "?q ! 9 = to_upper c" using l9 by (simp add: q nth_append)
        have tq: "take 9 ?q = take 9 ?p" using l9 by (simp add: q)
        show ?thesis
        proof (cases "pan_format ?q")
          case False
          with ne2 st2 show ?thesis by (simp add: validate_pan_def Let_def)
        next
          case fq: True
          from check_digit_of_format [OF fq] q9 tq eq p9 diff
          have cq: "validate_pan_check_digit ?q = Inr False" by simp
          have sq: "surname_mismatch ?q surname = Inr False"
            using surname_mismatch_cong [OF q3 q4] sn by simp
          from ne2 st2 fq cq sq show ?thesis
            by (simp add: validate_pan_def Let_def)
        qed
      qed
    qed
  qed
  from first second show ?thesis by (rule conjI)
qed

theorem validate_pan_check_letter_witness:
  "ascii ''ABCPE1234A'' \<and> length ''ABCPE1234A'' = 10
   \<and> validate_pan ''ABCPE1234A'' None = Inr True
   \<and> two_digit_products (upper (take 9 ''ABCPE1234A''))
   \<and> to_upper (''ABCPE1234A'' ! 9) = spec_check_letter (upper (take 9 ''ABCPE1234A''))
   \<and> to_upper CHR ''B'' \<noteq> to_upper (''ABCPE1234A'' ! 9)
   \<and> validate_pan (take 9 ''ABCPE1234A'' @ ''B'') None = Inr False"
proof -
  have asc: "ascii ''ABCPE1234A''" by code_simp
  have len: "length ''ABCPE1234A'' = 10" by simp
  have ok: "validate_pan ''ABCPE1234A'' None = Inr True" by code_simp
  have two: "two_digit_products (upper (take 9 ''ABCPE1234A''))" by code_simp
  have diff: "to_upper CHR ''B'' \<noteq> to_upper (''ABCPE1234A'' ! 9)" by code_simp
  from validate_pan_check_letter [OF asc len ok] asc len ok two diff show ?thesis by blast
qed

text \<open>
  The claim as it is worded fails for the lower-case form of the check letter:
  \<open>ABCPE1234A\<close> is accepted, and so is \<open>ABCPE1234a\<close>, whose 10th character has been
  altered and is not the check letter \<open>A\<close>.
\<close>

theorem validate_pan_lower_case_counterexample:
  "validate_pan ''ABCPE1234A'' None = Inr True
   \<and> validate_pan ''ABCPE1234a'' None = Inr True
   \<and> ''ABCPE1234a'' ! 9 \<noteq> spec_check_letter (take 9 ''ABCPE1234a'')
   \<and> ''ABCPE1234a'' ! 9 \<noteq> ''ABCPE1234A'' ! 9"
  by code_simp

text \<open>
  A product of three digits, of which the amended statement says nothing: in
  \<open>ABPPE1234A\<close> the third product is 175, for which the loop adds 17 and 5 where the
  digits add up to 13.
\<close>

lemma three_digit_product_accepted:
  "validate_pan ''ABPPE1234A'' None = Inr True
   \<and> \<not> two_digit_products ''ABPPE1234''
   \<and> spec_products ''ABPPE1234'' = [10, 33, 175, 25, 42, 7, 2, 9, 28]
   \<and> weighted_value 175 = 22 \<and> digit_sum 175 = 13"
  by code_simp

text \<open>
  A string that is not ASCII: the sharp s becomes two letters, and a string of 10
  characters that begins with a space is accepted through its 10 upper-case characters.
\<close>

lemma sharp_s_accepted:
  "validate_pan ([CHR '' '', CHR 0xDF] @ ''BCP1234B'') None = Inr True
   \<and> upper (strip ([CHR '' '', CHR 0xDF] @ ''BCP1234B'')) = ''SSBCP1234B''"
  by code_simp

section \<open>Properties of the validators and of the classification\<close>


lemma ex_not_bool: "Ex Not"
  by blast

lemma validate_pan_None_total: "\<exists>b. validate_pan v None = Inr b"
proof (cases "pan_format (upper (strip v))")
  case True
  then show ?thesis
    by (auto simp add: validate_pan_def Let_def surname_mismatch_def check_digit_of_format
             simp del: list.set)
next
  case False
  then show ?thesis
    by (auto simp add: validate_pan_def Let_def simp del: list.set)
qed

lemma is_valid_pii_total: "\<exists>b. is_valid_pii alg pii_type raw = Inr b"
  using validate_pan_None_total by (simp add: is_valid_pii_def Let_def ex_not_bool)

lemma normalize_VStr: "normalize_match_value (VStr s) = s"
  by (simp add: normalize_match_value_def)

text \<open>
  C10: for every candidate value and every type that maps, by the display-name mapping
  or by lower-casing, to none of the five keys, \<open>is_valid_pii\<close> returns false; it never
  raises, whatever the type; and a candidate that is \<open>None\<close> or a tuple is validated as
  the string it normalizes to.
\<close>

theorem is_valid_pii_unknown_type:
  "(mapped_type_of pii_type \<notin> {''aadhaar'', ''pan'', ''credit_card'', ''email'', ''phone''}
      \<longrightarrow> is_valid_pii alg pii_type raw = Inr False)
   \<and> (\<exists>b. is_valid_pii alg pii_type raw = Inr b)
   \<and> is_valid_pii alg pii_type raw = is_valid_pii alg pii_type (VStr (normalize_match_value raw))"
proof (intro conjI impI)
  assume "mapped_type_of pii_type \<notin> {''aadhaar'', ''pan'', ''credit_card'', ''email'', ''phone''}"
  then show "is_valid_pii alg pii_type raw = Inr False"
    by (simp add: is_valid_pii_def Let_def)
next
  show "\<exists>b. is_valid_pii alg pii_type raw = Inr b" by (rule is_valid_pii_total)
next
  show "is_valid_pii alg pii_type raw = is_valid_pii alg pii_type (VStr (normalize_match_value raw))"
    by (simp add: is_valid_pii_def normalize_VStr)
qed

theorem is_valid_pii_unknown_type_witness:
  "mapped_type_of ''ssn'' \<notin> {''aadhaar'', ''pan'', ''credit_card'', ''email'', ''phone''}
   \<and> is_valid_pii \<lparr>luhn_check = (\<lambda>v. True), verhoeff_check = (\<lambda>v. True)\<rparr> ''ssn''
        (VTuple [None, Some [], Some ''234123412346'']) = Inr False
   \<and> normalize_match_value (VTuple [None, Some [], Some ''234123412346'']) = ''234123412346''
   \<and> normalize_match_value VNone = []"
proof -
  have h: "mapped_type_of ''ssn'' \<notin> {''aadhaar'', ''pan'', ''credit_card'', ''email'', ''phone''}"
    by code_simp
  have n: "normalize_match_value (VTuple [None, Some [], Some ''234123412346'']) = ''234123412346''"
    by (simp add: normalize_match_value_def)
  have n0: "normalize_match_value VNone = []"
    by (simp add: normalize_match_value_def)
  from is_valid_pii_unknown_type [of "''ssn''"] h n n0 show ?thesis by blast
qed

lemma any_valid_iff:
  "any_valid alg ds = Inr (list_ex (\<lambda>(t, m). is_valid_pii alg t (VStr m) = Inr True) ds)"
proof (induction ds)
  case Nil
  then show ?case by simp
next
  case (Cons d ds)
  obtain t m where d: "d = (t, m)" by (cases d)
  obtain b where b: "is_valid_pii alg t (VStr m) = Inr b"
    using is_valid_pii_total by blast
  with Cons d show ?case by (cases b) auto
qed

lemma any_true_pii_eq: "any_true_pii alg (Some v) = any_valid alg (detect_pii (Some v))"
  by (simp add: any_true_pii_def detect_pii_empty)

text \<open>
  C1: for every cell, the classification follows the decision table: detection present
  with a confirmed candidate and ground truth true is TP, with ground truth false FP;
  detection present with no confirmed candidate and ground truth true is FN, with
  ground truth false FP; detection absent with ground truth true is FN, with ground
  truth false TN.
\<close>

theorem classify_cell_decision_table:
  "classify_cell alg v =
     Inr (decision_table
            (detect_pii (Some v) \<noteq> [])
            (list_ex (\<lambda>(t, m). is_valid_pii alg t (VStr m) = Inr True) (detect_pii (Some v)))
            (any_true_pii alg (Some v) = Inr True))"
  by (simp add: classify_cell_def Let_def any_true_pii_eq any_valid_iff decision_table_def)

theorem classify_cell_decision_table_witness:
  "classify_cell \<lparr>luhn_check = (\<lambda>v. True), verhoeff_check = (\<lambda>v. True)\<rparr> ''mail bob@example.com''
     = Inr TP
   \<and> classify_cell \<lparr>luhn_check = (\<lambda>v. True), verhoeff_check = (\<lambda>v. True)\<rparr> ''call 123456789012''
     = Inr FP"
proof -
  let ?alg = "\<lparr>luhn_check = (\<lambda>v. True), verhoeff_check = (\<lambda>v. True)\<rparr>"
  have a: "decision_table
            (detect_pii (Some ''mail bob@example.com'') \<noteq> [])
            (list_ex (\<lambda>(t, m). is_valid_pii ?alg t (VStr m) = Inr True)
               (detect_pii (Some ''mail bob@example.com'')))
            (any_true_pii ?alg (Some ''mail bob@example.com'') = Inr True) = TP"
    by code_simp
  have b: "decision_table
            (detect_pii (Some ''call 123456789012'') \<noteq> [])
            (list_ex (\<lambda>(t, m). is_valid_pii ?alg t (VStr m) = Inr True)
               (detect_pii (Some ''call 123456789012'')))
            (any_true_pii ?alg (Some ''call 123456789012'') = Inr True) = FP"
    by code_simp
  from classify_cell_decision_table [of ?alg "''mail bob@example.com''"]
       classify_cell_decision_table [of ?alg "''call 123456789012''"] a b
  show ?thesis by simp
qed

lemma classify_cell_cases:
  "classify_cell alg v = Inr TP \<or> classify_cell alg v = Inr TN
   \<or> (classify_cell alg v = Inr FP \<and> detect_pii (Some v) \<noteq> []
       \<and> any_valid alg (detect_pii (Some v)) = Inr False)"
  by (simp add: classify_cell_def Let_def any_true_pii_eq any_valid_iff)

lemma classify_cell_not_FN: "classify_cell alg v \<noteq> Inr FN"
  using classify_cell_cases [of alg v] by auto

lemma classify_cell_total: "\<exists>oc. classify_cell alg v = Inr oc"
  using classify_cell_cases [of alg v] by auto

lemma analyze_cells_FN:
  "\<exists>m'. analyze_cells alg vs m = Inr m' \<and> m_FN m' = m_FN m
        \<and> m_TP m' + m_TN m' + m_FP m' = m_TP m + m_TN m + m_FP m + length vs"
proof (induction vs arbitrary: m)
  case Nil
  then show ?case by simp
next
  case (Cons v vs)
  obtain oc where oc: "classify_cell alg v = Inr oc" using classify_cell_total by blast
  with classify_cell_not_FN [of alg v] have nf: "oc \<noteq> FN" by auto
  from Cons [of "count_outcome oc m"] obtain m' where
    m': "analyze_cells alg vs (count_outcome oc m) = Inr m'"
      "m_FN m' = m_FN (count_outcome oc m)"
      "m_TP m' + m_TN m' + m_FP m' =
         m_TP (count_outcome oc m) + m_TN (count_outcome oc m) + m_FP (count_outcome oc m) + length vs"
    by blast
  from nf have "m_FN (count_outcome oc m) = m_FN m"
    and "m_TP (count_outcome oc m) + m_TN (count_outcome oc m) + m_FP (count_outcome oc m)
           = m_TP m + m_TN m + m_FP m + 1"
    by (cases oc; simp add: count_outcome_def)+
  with m' oc show ?case by simp
qed

text \<open>
  C2: the ground truth \<open>any_true_pii\<close> is the predicate that validates the cell's own
  detections, so \<open>analyze_dataframe\<close> classifies every cell as TP, as TN, or as FP
  with detections of which none validates; the FN counter stays at zero, and the
  branch for a valid detection with ground truth false is never taken.
\<close>

theorem analyze_dataframe_never_FN:
  "(\<exists>m. analyze_dataframe alg df = Inr m \<and> m_FN m = 0
         \<and> m_TP m + m_TN m + m_FP m = length (concat (map snd df)))
   \<and> (classify_cell alg v = Inr TP \<or> classify_cell alg v = Inr TN
       \<or> (classify_cell alg v = Inr FP \<and> detect_pii (Some v) \<noteq> []
           \<and> any_valid alg (detect_pii (Some v)) = Inr False))
   \<and> \<not> (any_valid alg (detect_pii (Some v)) = Inr True \<and> any_true_pii alg (Some v) = Inr False)"
proof (intro conjI)
  show "\<exists>m. analyze_dataframe alg df = Inr m \<and> m_FN m = 0
         \<and> m_TP m + m_TN m + m_FP m = length (concat (map snd df))"
    using analyze_cells_FN [of alg "concat (map snd df)" "\<lparr>m_TP = 0, m_TN = 0, m_FP = 0, m_FN = 0\<rparr>"]
    by (simp add: analyze_dataframe_def)
next
  show "classify_cell alg v = Inr TP \<or> classify_cell alg v = Inr TN
       \<or> (classify_cell alg v = Inr FP \<and> detect_pii (Some v) \<noteq> []
           \<and> any_valid alg (detect_pii (Some v)) = Inr False)"
    by (rule classify_cell_cases)
next
  show "\<not> (any_valid alg (detect_pii (Some v)) = Inr True \<and> any_true_pii alg (Some v) = Inr False)"
    by (simp add: any_true_pii_eq)
qed

theorem analyze_dataframe_never_FN_witness:
  "analyze_dataframe \<lparr>luhn_check = (\<lambda>v. True), verhoeff_check = (\<lambda>v. True)\<rparr>
     [(''a'', [''bob@example.com'', ''x'']), (''b'', [''123456789012''])]
     = Inr \<lparr>m_TP = 1, m_TN = 1, m_FP = 1, m_FN = 0\<rparr>
   \<and> (\<exists>m. analyze_dataframe \<lparr>luhn_check = (\<lambda>v. True), verhoeff_check = (\<lambda>v. True)\<rparr>
             [(''a'', [''bob@example.com'', ''x'']), (''b'', [''123456789012''])] = Inr m
          \<and> m_FN m = 0)"
proof -
  have "analyze_dataframe \<lparr>luhn_check = (\<lambda>v. True), verhoeff_check = (\<lambda>v. True)\<rparr>
     [(''a'', [''bob@example.com'', ''x'']), (''b'', [''123456789012''])]
     = Inr \<lparr>m_TP = 1, m_TN = 1, m_FP = 1, m_FN = 0\<rparr>"
    by code_simp
  with analyze_dataframe_never_FN
         [of "\<lparr>luhn_check = (\<lambda>v. True), verhoeff_check = (\<lambda>v. True)\<rparr>"
             "[(''a'', [''bob@example.com'', ''x'']), (''b'', [''123456789012''])]"]
  show ?thesis by simp
qed

section \<open>Properties of de-identification\<close>










lemma known_types_eq:
  "known_types = {''aadhaar'', ''pan'', ''credit_card'', ''email'', ''phone''}"
  by (simp add: known_types_def patterns_def)

lemma initial_maps:
  "t \<in> known_types \<Longrightarrow> pseudo_maps (initial_state draws) t = Some Map.empty"
  by (auto simp: known_types_eq initial_state_def patterns_def)

lemma initial_counters:
  "t \<in> known_types \<Longrightarrow> pseudo_counters (initial_state draws) t = Some 1"
  by (auto simp: known_types_eq initial_state_def patterns_def)

lemma initial_unknown:
  "t \<notin> known_types \<Longrightarrow> pseudo_maps (initial_state draws) t = None"
  by (simp add: known_types_eq initial_state_def patterns_def)


lemma pseudo_anonymize_pii_eq:
  "pseudo_anonymize_pii pii_type v s =
     lookup_or_assign (mapped_type_of pii_type) v
       (\<lambda>c. replacement (mapped_type_of pii_type) c v) s"
  by (simp add: pseudo_anonymize_pii_def pseudo_anonymize_def replacement_def Let_def)

lemma lookup_or_assign_old:
  assumes "pseudo_maps s t = Some m" and "m v = Some r"
  shows "lookup_or_assign t v fmt s = Inr (r, s)"
  using assms by (simp add: lookup_or_assign_def)

lemma lookup_or_assign_new:
  assumes "pseudo_maps s t = Some m" and "m v = None" and "pseudo_counters s t = Some c"
  shows "lookup_or_assign t v fmt s =
           Inr (fmt c, s\<lparr>pseudo_maps := (pseudo_maps s)(t \<mapsto> m(v \<mapsto> fmt c)),
                         pseudo_counters := (pseudo_counters s)(t \<mapsto> Suc c)\<rparr>)"
  using assms by (simp add: lookup_or_assign_def)

lemma lookup_or_assign_cases:
  assumes "lookup_or_assign t v fmt s = Inr (r, s')"
  obtains (old) m where "pseudo_maps s t = Some m" and "m v = Some r" and "s' = s"
  | (new) m c where "pseudo_maps s t = Some m" and "m v = None"
      and "pseudo_counters s t = Some c" and "r = fmt c"
      and "s' = s\<lparr>pseudo_maps := (pseudo_maps s)(t \<mapsto> m(v \<mapsto> fmt c)),
                   pseudo_counters := (pseudo_counters s)(t \<mapsto> Suc c)\<rparr>"
proof (cases "pseudo_maps s t")
  case None
  with assms show ?thesis by (simp add: lookup_or_assign_def)
next
  case (Some m)
  show ?thesis
  proof (cases "m v")
    case r0: (Some r0)
    from lookup_or_assign_old [OF Some r0, of fmt] assms have "r0 = r" and "s' = s" by simp_all
    with Some r0 old show ?thesis by simp
  next
    case None
    show ?thesis
    proof (cases "pseudo_counters s t")
      case nc: None
      with Some \<open>m v = None\<close> assms show ?thesis by (simp add: lookup_or_assign_def)
    next
      case c: (Some c)
      from lookup_or_assign_new [OF Some None c, of fmt] assms
      have "r = fmt c"
        and "s' = s\<lparr>pseudo_maps := (pseudo_maps s)(t \<mapsto> m(v \<mapsto> fmt c)),
                     pseudo_counters := (pseudo_counters s)(t \<mapsto> Suc c)\<rparr>"
        by simp_all
      with Some None c new show ?thesis by blast
    qed
  qed
qed



lemma selective_deidentify_frame:
  "pseudo_maps (snd (selective_deidentify ty v s)) = pseudo_maps s
   \<and> pseudo_counters (snd (selective_deidentify ty v s)) = pseudo_counters s"
  by (simp add: selective_deidentify_def random_choices_def Let_def split_def
           split: option.split)

lemma pseudo_anonymize_pii_frame:
  assumes "pseudo_anonymize_pii ty v s = Inr (r, s')"
  shows "email_map s' = email_map s \<and> email_counter s' = email_counter s \<and> rng s' = rng s"
  using assms unfolding pseudo_anonymize_pii_eq
  by (cases rule: lookup_or_assign_cases) simp_all















lemma pseudo_result_frame:
  "map_sum id fst (lookup_or_assign t v fmt (s\<lparr>email_map := em, email_counter := ec\<rparr>))
     = map_sum id fst (lookup_or_assign t v fmt s)"
  by (simp add: lookup_or_assign_def split: option.split)

lemma selective_result_frame:
  "fst (selective_deidentify ty v (s\<lparr>pseudo_maps := pm, pseudo_counters := pc\<rparr>))
     = fst (selective_deidentify ty v s)"
  by (simp add: selective_deidentify_def random_choices_def Let_def split_def
           split: option.split)

lemma selective_new_email:
  assumes "lower ty = ''email''"
    and "case email_map s of None \<Rightarrow> True | Some m \<Rightarrow> m v = None"
  shows "fst (selective_deidentify ty v s) =
           ''email'' @ str_nat (case email_counter s of None \<Rightarrow> 1 | Some n \<Rightarrow> n)
             @ ''@'' @ email_domain v"
  using assms
  by (simp add: selective_deidentify_def Let_def split: option.splits)

lemma pseudo_new_email:
  assumes "mapped_type_of ty = ''email''"
    and "pseudo_maps s ''email'' = Some m" and "m v = None"
    and "pseudo_counters s ''email'' = Some c"
  shows "map_sum id fst (pseudo_anonymize_pii ty v s) =
           Inr (''user'' @ str_nat c @ ''@'' @ email_domain v)"
  using assms
  by (simp add: pseudo_anonymize_pii_def lookup_or_assign_def Let_def)

text \<open>
  C8: the Selective strategy's email pseudonyms and Pseudo-Anonymization use disjoint
  state. A call of one leaves the map and the counter of the other as they are, and
  its answer does not depend on them; for an email new to both, Selective answers
  \<open>email{n}@domain\<close> from its own counter and Pseudo-Anonymization
  \<open>user{m}@domain\<close> from the counter of the type \<open>email\<close>.
\<close>

theorem selective_and_pseudo_email_disjoint:
  "(\<forall>r s1. pseudo_anonymize_pii pii_type val s = Inr (r, s1) \<longrightarrow>
       email_map s1 = email_map s \<and> email_counter s1 = email_counter s)
   \<and> pseudo_maps (snd (selective_deidentify pii_type val s)) = pseudo_maps s
   \<and> pseudo_counters (snd (selective_deidentify pii_type val s)) = pseudo_counters s
   \<and> fst (selective_deidentify pii_type val (s\<lparr>pseudo_maps := pm, pseudo_counters := pc\<rparr>))
       = fst (selective_deidentify pii_type val s)
   \<and> map_sum id fst (pseudo_anonymize_pii pii_type val (s\<lparr>email_map := em, email_counter := ec\<rparr>))
       = map_sum id fst (pseudo_anonymize_pii pii_type val s)
   \<and> (lower pii_type = ''email'' \<longrightarrow>
        (case email_map s of None \<Rightarrow> True | Some m \<Rightarrow> m val = None) \<longrightarrow>
        fst (selective_deidentify pii_type val s) =
          ''email'' @ str_nat (case email_counter s of None \<Rightarrow> 1 | Some n \<Rightarrow> n)
            @ ''@'' @ email_domain val)
   \<and> (\<forall>m c. mapped_type_of pii_type = ''email'' \<longrightarrow> pseudo_maps s ''email'' = Some m \<longrightarrow>
        m val = None \<longrightarrow> pseudo_counters s ''email'' = Some c \<longrightarrow>
        map_sum id fst (pseudo_anonymize_pii pii_type val s) =
          Inr (''user'' @ str_nat c @ ''@'' @ email_domain val))"
proof (intro conjI allI impI)
  fix r s1
  assume "pseudo_anonymize_pii pii_type val s = Inr (r, s1)"
  from pseudo_anonymize_pii_frame [OF this]
  show "email_map s1 = email_map s" and "email_counter s1 = email_counter s" by simp_all
next
  show "pseudo_maps (snd (selective_deidentify pii_type val s)) = pseudo_maps s"
    using selective_deidentify_frame [of pii_type val s] by simp
next
  show "pseudo_counters (snd (selective_deidentify pii_type val s)) = pseudo_counters s"
    using selective_deidentify_frame [of pii_type val s] by simp
next
  show "fst (selective_deidentify pii_type val (s\<lparr>pseudo_maps := pm, pseudo_counters := pc\<rparr>))
       = fst (selective_deidentify pii_type val s)"
    by (rule selective_result_frame)
next
  show "map_sum id fst (pseudo_anonymize_pii pii_type val (s\<lparr>email_map := em, email_counter := ec\<rparr>))
       = map_sum id fst (pseudo_anonymize_pii pii_type val s)"
    by (simp only: pseudo_anonymize_pii_eq pseudo_result_frame)
next
  assume "lower pii_type = ''email''"
    and "case email_map s of None \<Rightarrow> True | Some m \<Rightarrow> m val = None"
  then show "fst (selective_deidentify pii_type val s) =
          ''email'' @ str_nat (case email_counter s of None \<Rightarrow> 1 | Some n \<Rightarrow> n)
            @ ''@'' @ email_domain val"
    by (rule selective_new_email)
next
  fix m c
  assume "mapped_type_of pii_type = ''email''" and "pseudo_maps s ''email'' = Some m"
    and "m val = None" and "pseudo_counters s ''email'' = Some c"
  then show "map_sum id fst (pseudo_anonymize_pii pii_type val s) =
          Inr (''user'' @ str_nat c @ ''@'' @ email_domain val)"
    by (rule pseudo_new_email)
qed

text \<open>
  Two emails pseudonymized, then the second one given to the Selective strategy: the
  numberings are separate.
\<close>

lemma two_pseudo_then_selective:
  "(case pseudo_anonymize_pii ''Email'' ''amy@x.org'' (initial_state (\<lambda>j. 0)) of
      Inl e \<Rightarrow> False
    | Inr (r1, s1) \<Rightarrow>
       (case pseudo_anonymize_pii ''Email'' ''bob@example.com'' s1 of
          Inl e \<Rightarrow> False
        | Inr (r2, s2) \<Rightarrow>
            r1 = ''user1@x.org'' \<and> r2 = ''user2@example.com''
            \<and> email_map s2 = None
            \<and> fst (selective_deidentify ''Email'' ''bob@example.com'' s2) = ''email1@example.com''
            \<and> map_sum id fst (pseudo_anonymize_pii ''Email'' ''bob@example.com''
                 (snd (selective_deidentify ''Email'' ''bob@example.com'' s2)))
               = Inr ''user2@example.com''))"
  by code_simp

theorem selective_and_pseudo_email_disjoint_witness:
  "lower ''Email'' = ''email''
   \<and> (case email_map (initial_state (\<lambda>j. 0)) of None \<Rightarrow> True
        | Some m \<Rightarrow> m ''bob@example.com'' = None)
   \<and> fst (selective_deidentify ''Email'' ''bob@example.com'' (initial_state (\<lambda>j. 0)))
        = ''email1@example.com''
   \<and> map_sum id fst (pseudo_anonymize_pii ''Email'' ''bob@example.com'' (initial_state (\<lambda>j. 0)))
        = Inr ''user1@example.com''"
proof -
  let ?s0 = "initial_state (\<lambda>j. 0)"
  have l: "lower ''Email'' = ''email''" by code_simp
  have mt: "mapped_type_of ''Email'' = ''email''" by code_simp
  have e: "email_map ?s0 = None" and ec: "email_counter ?s0 = None"
    by (simp_all add: initial_state_def)
  have new: "case email_map ?s0 of None \<Rightarrow> True | Some m \<Rightarrow> m ''bob@example.com'' = None"
    by (simp add: e)
  have k: "''email'' \<in> known_types" by (simp add: known_types_eq)
  have m0: "pseudo_maps ?s0 ''email'' = Some Map.empty" using k by (rule initial_maps)
  have c0: "pseudo_counters ?s0 ''email'' = Some 1" using k by (rule initial_counters)
  have one: "str_nat (Suc 0) = ''1''" by code_simp
  have d: "email_domain ''bob@example.com'' = ''example.com''" by code_simp
  note inst = selective_and_pseudo_email_disjoint
         [where s = ?s0 and pii_type = "''Email''" and val = "''bob@example.com''"
            and pm = "pseudo_maps ?s0" and pc = "pseudo_counters ?s0"
            and em = None and ec = None]
  note sel = inst [THEN conjunct2, THEN conjunct2, THEN conjunct2, THEN conjunct2,
                   THEN conjunct2, THEN conjunct1]
  note ps = inst [THEN conjunct2, THEN conjunct2, THEN conjunct2, THEN conjunct2,
                  THEN conjunct2, THEN conjunct2]
  from sel l new have a: "fst (selective_deidentify ''Email'' ''bob@example.com'' ?s0)
        = ''email1@example.com''"
    by (simp add: ec one d)
  from ps mt m0 c0 have b: "map_sum id fst (pseudo_anonymize_pii ''Email'' ''bob@example.com'' ?s0)
        = Inr ''user1@example.com''"
    by (simp add: one d)
  from l new a b show ?thesis by (intro conjI)
qed

lemma mapped_type_of_ssn: "mapped_type_of ''ssn'' = ''ssn''"
  by code_simp

lemma lower_ssn: "lower ''ssn'' = ''ssn''"
  by code_simp

text \<open>
  C7 does not hold for Pseudo-Anonymization: with a type that is not a key of the
  dictionaries, \<open>pseudo_anonymize\<close> raises \<open>KeyError\<close>, where masking, the selective
  strategy and an unrecognized strategy name pass the value through.
\<close>

theorem pseudo_anonymization_unknown_type_raises:
  "deidentify_value ''Pseudo-Anonymization'' ''ssn'' ''123-45-6789'' (initial_state draws)
     = Inl KeyError
   \<and> deidentify_value ''Masking'' ''ssn'' ''123-45-6789'' (initial_state draws)
     = Inr (''123-45-6789'', initial_state draws)
   \<and> map_sum id fst (deidentify_value ''Selective'' ''ssn'' ''123-45-6789'' (initial_state draws))
     = Inr ''123-45-6789''
   \<and> deidentify_value ''Redaction'' ''ssn'' ''123-45-6789'' (initial_state draws)
     = Inr (''123-45-6789'', initial_state draws)"
proof (intro conjI)
  have "''ssn'' \<notin> known_types" by (simp add: known_types_eq)
  then have "pseudo_maps (initial_state draws) ''ssn'' = None" by (rule initial_unknown)
  then show "deidentify_value ''Pseudo-Anonymization'' ''ssn'' ''123-45-6789'' (initial_state draws)
     = Inl KeyError"
    by (simp add: deidentify_value_def pseudo_anonymize_pii_def pseudo_anonymize_def
                  lookup_or_assign_def mapped_type_of_ssn)
next
  show "deidentify_value ''Masking'' ''ssn'' ''123-45-6789'' (initial_state draws)
     = Inr (''123-45-6789'', initial_state draws)"
    by (simp add: deidentify_value_def mask_pii_def mapped_type_of_ssn)
next
  show "map_sum id fst (deidentify_value ''Selective'' ''ssn'' ''123-45-6789'' (initial_state draws))
     = Inr ''123-45-6789''"
    by (simp add: deidentify_value_def selective_deidentify_def lower_ssn Let_def)
next
  show "deidentify_value ''Redaction'' ''ssn'' ''123-45-6789'' (initial_state draws)
     = Inr (''123-45-6789'', initial_state draws)"
    by (simp add: deidentify_value_def)
qed

text \<open>
  C4 does not hold for Aadhaar, PAN and phone: \<open>anonymize_pii\<close> draws every character
  from the letters and the digits. With a generator that always draws the first
  character of the population, the Aadhaar replacement is twelve letters \<open>a\<close>, the
  phone replacement is \<open>9\<close> and nine letters, and the middle four characters of the
  PAN replacement are letters; with one that always draws the digit \<open>0\<close>, the PAN
  replacement is ten digits.
\<close>

theorem anonymize_pii_draws_letters:
  "fst (anonymize_pii ''aadhaar'' ''234123412346'' (initial_state (\<lambda>j. 0))) = ''aaaaaaaaaaaa''
   \<and> fst (anonymize_pii ''phone'' ''9876543210'' (initial_state (\<lambda>j. 0))) = ''9aaaaaaaaa''
   \<and> fst (anonymize_pii ''pan'' ''ABCPE1234A'' (initial_state (\<lambda>j. 0))) = ''AAAAAaaaaA''
   \<and> fst (anonymize_pii ''pan'' ''ABCPE1234A'' (initial_state (\<lambda>j. 52))) = ''0000000000''"
  by code_simp

end
